theory Spec2Isabelle
  imports Main
begin

section \<open>The manifest: \<open>modules/db.py\<close>, class \<open>FileList\<close>\<close>

text \<open>
  An element of \<open>FileList._items\<close> is a dictionary with the four keys
  \<open>file_name\<close>, \<open>size\<close>, \<open>checksum\<close> and \<open>disks\<close>. The list itself is the
  state of the object; every method takes it and, when it mutates, returns it updated.
\<close>

record entry =
  ent_file_name :: string
  ent_size :: string
  ent_checksum :: string
  ent_disks :: "string list"

datatype db_error = FileAlreadyExistInFileList

text \<open>
  \<open>FileList.get(name_or_checksum)\<close> walks the list and returns the first dictionary whose
  \<open>file_name\<close> or whose \<open>checksum\<close> equals the key, else \<open>None\<close>. The Python value is a
  reference into the list; the model returns the position, which is what the reference
  denotes when \<open>add\<close> mutates the entry in place.
\<close>

fun FileList_get :: "entry list \<Rightarrow> string \<Rightarrow> nat option" where
  "FileList_get [] name_or_checksum = None"
| "FileList_get (item # items) name_or_checksum =
     (if ent_file_name item = name_or_checksum \<or> ent_checksum item = name_or_checksum
      then Some 0
      else map_option Suc (FileList_get items name_or_checksum))"

text \<open>
  \<open>self.get(name) or self.get(checksum)\<close>: an entry is a dictionary with four keys, hence
  truthy, so the disjunction is the first lookup when it finds something and the second
  lookup otherwise.
\<close>

definition FileList_lookup :: "entry list \<Rightarrow> string \<Rightarrow> string \<Rightarrow> nat option" where
  "FileList_lookup items name checksum =
     (case FileList_get items name of
        Some i \<Rightarrow> Some i
      | None \<Rightarrow> FileList_get items checksum)"

text \<open>
  \<open>FileList.add\<close>. The result pairs the exception raised (if any) with the list after the
  call, so that what a raising call leaves behind is part of the model.
\<close>

definition FileList_add ::
  "entry list \<Rightarrow> string \<Rightarrow> string \<Rightarrow> string \<Rightarrow> string \<Rightarrow> db_error option \<times> entry list" where
  "FileList_add items name sz checksum disk =
     (case FileList_lookup items name checksum of
        Some i \<Rightarrow>
          (if disk \<notin> set (ent_disks (items ! i))
           then (None, items[i := (items ! i)\<lparr>ent_disks := ent_disks (items ! i) @ [disk]\<rparr>])
           else (Some FileAlreadyExistInFileList, items))
      | None \<Rightarrow>
          (None, items @ [\<lparr>ent_file_name = name, ent_size = sz,
                           ent_checksum = checksum, ent_disks = [disk]\<rparr>]))"





section \<open>Strings as \<open>main.py\<close> formats them\<close>

text \<open>\<open>str(n)\<close> for a Python integer: decimal digits, with a leading minus sign.\<close>

definition digit_char :: "nat \<Rightarrow> char" where
  "digit_char n = ''0123456789'' ! (n mod 10)"

function str_nat :: "nat \<Rightarrow> string" where
  "str_nat n = (if n < 10 then [digit_char n] else str_nat (n div 10) @ [digit_char (n mod 10)])"
  by pat_completeness auto
termination
  by (relation "measure (\<lambda>n. n)") auto

declare str_nat.simps [simp del]

definition str_int :: "int \<Rightarrow> string" where
  "str_int k = (if k < 0 then ''-'' @ str_nat (nat (- k)) else str_nat (nat k))"

text \<open>
  An f-string field \<open>{x}\<close> where \<open>x\<close> may be \<open>None\<close>: \<open>VKPhoto.likes_count\<close> is
  \<open>likes['count'] if likes else None\<close>, and \<open>gdrive_path\<close>, \<open>yandex_path\<close> are \<open>None\<close> for a
  drive that was not selected.
\<close>

definition fmt_int_opt :: "int option \<Rightarrow> string" where
  "fmt_int_opt x = (case x of None \<Rightarrow> ''None'' | Some k \<Rightarrow> str_int k)"

definition fmt_str_opt :: "string option \<Rightarrow> string" where
  "fmt_str_opt x = (case x of None \<Rightarrow> ''None'' | Some s \<Rightarrow> s)"

text \<open>
  \<open>str(photo.date.date())\<close>: a \<open>datetime.date\<close> prints as \<open>YYYY-MM-DD\<close>, the year padded
  with zeros to four digits, month and day to two.
\<close>

record date =
  year :: nat
  month :: nat
  day :: nat

definition zero_pad :: "nat \<Rightarrow> string \<Rightarrow> string" where
  "zero_pad w s = replicate (w - length s) CHR ''0'' @ s"

definition str_date :: "date \<Rightarrow> string" where
  "str_date d = zero_pad 4 (str_nat (year d)) @ ''-'' @ zero_pad 2 (str_nat (month d))
                 @ ''-'' @ zero_pad 2 (str_nat (day d))"

text \<open>\<open>item.startswith(prefix)\<close>.\<close>

definition startswith :: "string \<Rightarrow> string \<Rightarrow> bool" where
  "startswith item pre \<longleftrightarrow> take (length pre) item = pre"

text \<open>
  \<open>s.replace('.', r)\<close>: every occurrence of the one-character pattern is replaced, not
  only the last one.
\<close>

definition replace_char :: "char \<Rightarrow> string \<Rightarrow> string \<Rightarrow> string" where
  "replace_char c r s = concat (map (\<lambda>x. if x = c then r else [x]) s)"

section \<open>The photo: \<open>modules/vk.py\<close>, what \<open>main.py\<close> reads of it\<close>

text \<open>
  \<open>VKPhotoSize.file_extension\<close>:
  \<^verbatim>\<open>
  start_index = self.url.rfind('/') + 1
  name = self.url[start_index:self.url.find('?', start_index)]
  return name[name.rfind('.') + 1:]
  \<close>
  \<open>s[s.rfind(c) + 1:]\<close> is what follows the last \<open>c\<close>, and the whole of \<open>s\<close> when \<open>c\<close> does
  not occur (\<open>rfind\<close> is \<open>-1\<close> then). When no \<open>?\<close> follows \<open>start_index\<close>, \<open>find\<close> is \<open>-1\<close>
  and the slice \<open>[start_index:-1]\<close> drops the last character.
\<close>

definition after_last :: "char \<Rightarrow> string \<Rightarrow> string" where
  "after_last c s = rev (takeWhile (\<lambda>x. x \<noteq> c) (rev s))"

definition file_extension :: "string \<Rightarrow> string" where
  "file_extension url =
     (let tail = after_last CHR ''/'' url;
          name = (if CHR ''?'' \<in> set tail
                  then takeWhile (\<lambda>x. x \<noteq> CHR ''?'') tail
                  else butlast tail)
      in after_last CHR ''.'' name)"

text \<open>
  One element of \<open>photos\<close>, as the body of the upload loop sees it once
  \<open>size = photo.max_size\<close>, \<open>size.mime_type\<close> and \<open>size.read_bytes()\<close> have returned:
  \<open>ph_url\<close> is \<open>size.url\<close>, \<open>ph_size\<close> is \<open>str(size)\<close>, and \<open>ph_md5\<close> is
  \<open>checksum(image_data)\<close>, the hexadecimal MD5 digest that stands for the content.
\<close>

record photo =
  ph_likes_count :: "int option"
  ph_date :: date
  ph_url :: string
  ph_size :: string
  ph_md5 :: string

section \<open>The remote inventories: \<open>main.py\<close>, lines 88 to 107\<close>

text \<open>
  \<open>google_folder_files_list\<close> and \<open>yandex_folder_files_list\<close> are Python dictionaries from
  checksum to file name. A dictionary keeps its keys in insertion order, and an assignment
  to an existing key replaces the value where the key stands: an association list with
  that update.
\<close>

type_synonym inventory = "(string \<times> string) list"

definition dict_get :: "inventory \<Rightarrow> string \<Rightarrow> string option" where
  "dict_get d k = map_of d k"

fun dict_set :: "inventory \<Rightarrow> string \<Rightarrow> string \<Rightarrow> inventory" where
  "dict_set [] k v = [(k, v)]"
| "dict_set ((k', v') # d) k v = (if k' = k then (k, v) # d else (k', v') # dict_set d k v)"

definition dict_values :: "inventory \<Rightarrow> string list" where
  "dict_values d = map snd d"

text \<open>
  Lines 95 to 99. An element of \<open>data['files']\<close> is a pair of its \<open>md5Checksum\<close>, when
  the key is there, and its \<open>name\<close>.
  \<^verbatim>\<open>
  for item in data['files']:
      if 'md5Checksum' in item:
          google_folder_files_list[item['md5Checksum']] = item['name']
  \<close>
\<close>

fun build_google :: "(string option \<times> string) list \<Rightarrow> inventory \<Rightarrow> inventory" where
  "build_google [] google_folder_files_list = google_folder_files_list"
| "build_google ((md5Checksum, name) # files) google_folder_files_list =
     (case md5Checksum of
        Some h \<Rightarrow> build_google files (dict_set google_folder_files_list h name)
      | None \<Rightarrow> build_google files google_folder_files_list)"

text \<open>The elements of the listing that have an \<open>md5Checksum\<close>, in the order of the listing.\<close>

fun hashed :: "(string option \<times> string) list \<Rightarrow> (string \<times> string) list" where
  "hashed [] = []"
| "hashed ((md5Checksum, name) # files) =
     (case md5Checksum of
        Some h \<Rightarrow> (h, name) # hashed files
      | None \<Rightarrow> hashed files)"

text \<open>
  Lines 106 and 107:
  \<^verbatim>\<open>
  for item in yadisk.files_list(yandex_path, 'image', 'items.md5'):
      yandex_folder_files_list[item['md5']] = item['name']
  \<close>
\<close>

fun build_yandex :: "(string \<times> string) list \<Rightarrow> inventory \<Rightarrow> inventory" where
  "build_yandex [] yandex_folder_files_list = yandex_folder_files_list"
| "build_yandex ((md5, name) # files) yandex_folder_files_list =
     build_yandex files (dict_set yandex_folder_files_list md5 name)"

section \<open>The upload loop: \<open>main.py\<close>, lines 118 to 187\<close>

text \<open>
  What one call of \<open>gdrive.upload_file\<close> or \<open>yadisk.upload\<close> does, seen from \<open>main.py\<close>:
  it returns a truthy value, returns a falsy one, raises the drive's out-of-space exception
  (\<open>google.StorageQuotaExceeded\<close>, \<open>yandex.InsufficientStorageException\<close>), or raises any
  other \<open>Exception\<close>.
\<close>

datatype upload_outcome = UploadOk | UploadFalsy | RaiseQuota | RaiseOther

text \<open>
  The drives are outside the program. A drive is a function from the number of upload
  calls it has received before, the file name and the checksum of the content to the
  outcome of the call; every behaviour of a drive during one run is such a function.
\<close>

type_synonym adapter = "nat \<Rightarrow> string \<Rightarrow> string \<Rightarrow> upload_outcome"

record env =
  google_upload :: adapter
  yandex_upload :: adapter
  gdrive_path :: "string option"
  yandex_path :: "string option"

datatype drive = GoogleDrive | YandexDisk

text \<open>A line of the log: the template and its arguments.\<close>

datatype log_line =
    LS_FILE_EXIST drive string string
  | LS_FILE_UPLOADED drive string string string
  | LS_NOT_ENOUGH_DISK_SPACE drive
  | LS_UPLOAD_FAILED drive string nat
  | ALREADY_IN_THE_LIST drive

text \<open>
  The variables the loop reads and writes. \<open>gdrive\<close> and \<open>yadisk\<close> are, in the loop,
  either a drive object (truthy, and for \<open>gdrive\<close> a \<open>GoogleDriveItem\<close>) or
  \<open>False\<close>/\<open>None\<close>: a flag. \<open>google_calls\<close> and \<open>yandex_calls\<close> are not variables of the
  program: they record every upload call made, with its file name, checksum and outcome.
\<close>

record state =
  gdrive :: bool
  yadisk :: bool
  google_folder_files_list :: inventory
  yandex_folder_files_list :: inventory
  files_list :: "entry list"
  google_calls :: "(string \<times> string \<times> upload_outcome) list"
  yandex_calls :: "(string \<times> string \<times> upload_outcome) list"
  log :: "log_line list"

subsection \<open>Lines 122 to 149: the name\<close>

text \<open>
  \<open>any([True for item in d.values() if file_name == item])\<close> and the truth value of
  \<open>d.get(md5)\<close>: a missing key gives \<open>None\<close>, and the empty string is falsy as well.
\<close>

definition name_taken :: "inventory \<Rightarrow> string \<Rightarrow> bool" where
  "name_taken d file_name \<longleftrightarrow> file_name \<in> set (dict_values d)"

definition truthy :: "string option \<Rightarrow> bool" where
  "truthy x = (case x of None \<Rightarrow> False | Some s \<Rightarrow> s \<noteq> [])"

definition first_name :: "photo \<Rightarrow> string" where
  "first_name p = fmt_int_opt (ph_likes_count p) @ ''.'' @ file_extension (ph_url p)"

text \<open>
  Lines 131 to 137 (and 141 to 147 for the other drive): the new value of \<open>i\<close> before
  \<open>i += 1\<close>, and the new \<open>file_name\<close>.
\<close>

definition count_prefixed :: "inventory \<Rightarrow> photo \<Rightarrow> nat" where
  "count_prefixed d p =
     length (filter (\<lambda>item. startswith item (fmt_int_opt (ph_likes_count p) @ ''_''))
               (dict_values d))"

definition dated_name :: "photo \<Rightarrow> string" where
  "dated_name p =
     fmt_int_opt (ph_likes_count p) @ ''_'' @ str_date (ph_date p) @ ''.'' @ file_extension (ph_url p)"

definition renamed :: "inventory \<Rightarrow> photo \<Rightarrow> string" where
  "renamed d p =
     (let i = count_prefixed d p; file_name = dated_name p
      in if i \<noteq> 0 then replace_char CHR ''.'' (''('' @ str_nat i @ '').'') file_name
         else file_name)"

text \<open>
  The \<open>while True\<close> loop. It has no bound, so it is a partial function: \<open>None\<close> is the loop
  that never reaches \<open>break\<close>. The counter \<open>i\<close> is passed on as the program leaves it
  (\<open>i += 1\<close>); the next round overwrites it before reading it.
\<close>

partial_function (option) name_loop :: "state \<Rightarrow> photo \<Rightarrow> nat \<Rightarrow> string \<Rightarrow> string option" where
  "name_loop st p i file_name =
     (if gdrive st \<and> name_taken (google_folder_files_list st) file_name
           \<and> \<not> truthy (dict_get (google_folder_files_list st) (ph_md5 p))
      then name_loop st p (count_prefixed (google_folder_files_list st) p + 1)
             (renamed (google_folder_files_list st) p)
      else if yadisk st \<and> name_taken (yandex_folder_files_list st) file_name
           \<and> \<not> truthy (dict_get (yandex_folder_files_list st) (ph_md5 p))
      then name_loop st p (count_prefixed (yandex_folder_files_list st) p + 1)
             (renamed (yandex_folder_files_list st) p)
      else Some file_name)"

declare name_loop.simps [code]

text \<open>The two tests of the loop: a drive that makes the loop take another name.\<close>

definition google_renames :: "state \<Rightarrow> photo \<Rightarrow> string \<Rightarrow> bool" where
  "google_renames st p file_name \<longleftrightarrow>
     gdrive st \<and> name_taken (google_folder_files_list st) file_name
     \<and> \<not> truthy (dict_get (google_folder_files_list st) (ph_md5 p))"

definition yandex_renames :: "state \<Rightarrow> photo \<Rightarrow> string \<Rightarrow> bool" where
  "yandex_renames st p file_name \<longleftrightarrow>
     yadisk st \<and> name_taken (yandex_folder_files_list st) file_name
     \<and> \<not> truthy (dict_get (yandex_folder_files_list st) (ph_md5 p))"

subsection \<open>Lines 150 to 168: Google Drive\<close>

text \<open>
  One round of \<open>for retry in range(0, 3)\<close>: the \<open>try\<close> block with its handlers. The
  Boolean says whether the round ended in \<open>break\<close>.

  After a truthy \<open>upload_file\<close> the inventory is written first and \<open>files_list.add\<close> is
  called after it; when \<open>add\<close> raises, the handler logs a warning and the round ends
  without \<open>break\<close>.
\<close>

definition google_upload_file :: "env \<Rightarrow> photo \<Rightarrow> string \<Rightarrow> nat \<Rightarrow> state \<Rightarrow> bool \<times> state" where
  "google_upload_file e p file_name retry st =
     (let r = google_upload e (length (google_calls st)) file_name (ph_md5 p);
          st1 = st\<lparr>google_calls := google_calls st @ [(file_name, ph_md5 p, r)]\<rparr>
      in case r of
           UploadOk \<Rightarrow>
             (let st2 = st1\<lparr>log := log st1 @ [LS_FILE_UPLOADED GoogleDrive file_name
                                                 (fmt_str_opt (gdrive_path e)) (ph_size p)],
                            google_folder_files_list :=
                              dict_set (google_folder_files_list st1) (ph_md5 p) file_name\<rparr>
              in case FileList_add (files_list st2) file_name (ph_size p) (ph_md5 p)
                        (''google:/'' @ fmt_str_opt (gdrive_path e)) of
                   (None, items) \<Rightarrow> (True, st2\<lparr>files_list := items\<rparr>)
                 | (Some FileAlreadyExistInFileList, items) \<Rightarrow>
                     (False, st2\<lparr>files_list := items,
                                 log := log st2 @ [ALREADY_IN_THE_LIST GoogleDrive]\<rparr>))
         | UploadFalsy \<Rightarrow> (False, st1)
         | RaiseQuota \<Rightarrow>
             (False, st1\<lparr>log := log st1 @ [LS_NOT_ENOUGH_DISK_SPACE GoogleDrive], gdrive := False\<rparr>)
         | RaiseOther \<Rightarrow>
             (False, st1\<lparr>log := log st1 @ [LS_UPLOAD_FAILED GoogleDrive file_name (2 - retry)]\<rparr>))"

definition google_try :: "env \<Rightarrow> photo \<Rightarrow> string \<Rightarrow> nat \<Rightarrow> state \<Rightarrow> bool \<times> state" where
  "google_try e p file_name retry st =
     (if gdrive st then
        (case dict_get (google_folder_files_list st) (ph_md5 p) of
           Some exist_file_name \<Rightarrow>
             (if exist_file_name \<noteq> []
              then (True, st\<lparr>log := log st @ [LS_FILE_EXIST GoogleDrive file_name exist_file_name]\<rparr>)
              else google_upload_file e p file_name retry st)
         | None \<Rightarrow> google_upload_file e p file_name retry st)
      else (False, st))"

fun google_loop :: "env \<Rightarrow> photo \<Rightarrow> string \<Rightarrow> nat list \<Rightarrow> state \<Rightarrow> state" where
  "google_loop e p file_name [] st = st"
| "google_loop e p file_name (retry # retries) st =
     (case google_try e p file_name retry st of
        (True, st') \<Rightarrow> st'
      | (False, st') \<Rightarrow> google_loop e p file_name retries st')"

subsection \<open>Lines 169 to 187: Yandex Disk\<close>

text \<open>
  The same round for the other drive. The file goes to \<open>{yandex_path}/{file_name}\<close>; the
  log line of a finished upload names \<open>gdrive_path\<close>, as the program does.
\<close>

definition yandex_upload_file :: "env \<Rightarrow> photo \<Rightarrow> string \<Rightarrow> nat \<Rightarrow> state \<Rightarrow> bool \<times> state" where
  "yandex_upload_file e p file_name retry st =
     (let r = yandex_upload e (length (yandex_calls st)) file_name (ph_md5 p);
          st1 = st\<lparr>yandex_calls := yandex_calls st @ [(file_name, ph_md5 p, r)]\<rparr>
      in case r of
           UploadOk \<Rightarrow>
             (let st2 = st1\<lparr>log := log st1 @ [LS_FILE_UPLOADED YandexDisk file_name
                                                 (fmt_str_opt (gdrive_path e)) (ph_size p)],
                            yandex_folder_files_list :=
                              dict_set (yandex_folder_files_list st1) (ph_md5 p) file_name\<rparr>
              in case FileList_add (files_list st2) file_name (ph_size p) (ph_md5 p)
                        (''yandex:/'' @ fmt_str_opt (yandex_path e)) of
                   (None, items) \<Rightarrow> (True, st2\<lparr>files_list := items\<rparr>)
                 | (Some FileAlreadyExistInFileList, items) \<Rightarrow>
                     (False, st2\<lparr>files_list := items,
                                 log := log st2 @ [ALREADY_IN_THE_LIST YandexDisk]\<rparr>))
         | UploadFalsy \<Rightarrow> (False, st1)
         | RaiseQuota \<Rightarrow>
             (False, st1\<lparr>log := log st1 @ [LS_NOT_ENOUGH_DISK_SPACE YandexDisk], yadisk := False\<rparr>)
         | RaiseOther \<Rightarrow>
             (False, st1\<lparr>log := log st1 @ [LS_UPLOAD_FAILED YandexDisk file_name (2 - retry)]\<rparr>))"

definition yandex_try :: "env \<Rightarrow> photo \<Rightarrow> string \<Rightarrow> nat \<Rightarrow> state \<Rightarrow> bool \<times> state" where
  "yandex_try e p file_name retry st =
     (if yadisk st then
        (case dict_get (yandex_folder_files_list st) (ph_md5 p) of
           Some exist_file_name \<Rightarrow>
             (if exist_file_name \<noteq> []
              then (True, st\<lparr>log := log st @ [LS_FILE_EXIST YandexDisk file_name exist_file_name]\<rparr>)
              else yandex_upload_file e p file_name retry st)
         | None \<Rightarrow> yandex_upload_file e p file_name retry st)
      else (False, st))"

fun yandex_loop :: "env \<Rightarrow> photo \<Rightarrow> string \<Rightarrow> nat list \<Rightarrow> state \<Rightarrow> state" where
  "yandex_loop e p file_name [] st = st"
| "yandex_loop e p file_name (retry # retries) st =
     (case yandex_try e p file_name retry st of
        (True, st') \<Rightarrow> st'
      | (False, st') \<Rightarrow> yandex_loop e p file_name retries st')"

subsection \<open>One photo, and the whole list\<close>

text \<open>\<open>range(0, 3)\<close>.\<close>

definition retries :: "nat list" where
  "retries = [0, 1, 2]"

definition process_photo :: "env \<Rightarrow> photo \<Rightarrow> state \<Rightarrow> state option" where
  "process_photo e p st =
     (case name_loop st p 0 (first_name p) of
        None \<Rightarrow> None
      | Some file_name \<Rightarrow>
          Some (yandex_loop e p file_name retries (google_loop e p file_name retries st)))"

fun run :: "env \<Rightarrow> photo list \<Rightarrow> state \<Rightarrow> state option" where
  "run e [] st = Some st"
| "run e (p # photos) st =
     (case process_photo e p st of
        None \<Rightarrow> None
      | Some st' \<Rightarrow> run e photos st')"

text \<open>
  The state when the loop starts (line 115: \<open>files_list = db.FileList()\<close>), for the two
  flags and the two inventories as lines 59 to 107 leave them.
\<close>

definition start :: "bool \<Rightarrow> bool \<Rightarrow> inventory \<Rightarrow> inventory \<Rightarrow> state" where
  "start g y ginv yinv =
     \<lparr>gdrive = g, yadisk = y, google_folder_files_list = ginv, yandex_folder_files_list = yinv,
      files_list = [], google_calls = [], yandex_calls = [], log = []\<rparr>"

text \<open>The file names of the upload calls that returned a truthy value.\<close>

definition uploaded ::
  "(string \<times> string \<times> upload_outcome) list \<Rightarrow> (string \<times> string) list" where
  "uploaded calls = map (\<lambda>(file_name, md5, r). (file_name, md5))
                      (filter (\<lambda>(file_name, md5, r). r = UploadOk) calls)"

section \<open>What a loop does to its own drive\<close>

text \<open>
  Each of the two \<open>for retry\<close> loops reads and writes three things of its drive: the flag,
  the inventory and (in the model) the record of calls. \<open>drive_loop\<close> is the effect of
  either loop on these three, for a file name that is not empty; the loops are shown to
  agree with it below (\<open>google_loop_view\<close>, \<open>yandex_loop_view\<close>).
\<close>

type_synonym calls = "(string \<times> string \<times> upload_outcome) list"

type_synonym view = "bool \<times> inventory \<times> calls"

definition google_view :: "state \<Rightarrow> view" where
  "google_view st = (gdrive st, google_folder_files_list st, google_calls st)"

definition yandex_view :: "state \<Rightarrow> view" where
  "yandex_view st = (yadisk st, yandex_folder_files_list st, yandex_calls st)"

fun drive_call :: "adapter \<Rightarrow> string \<Rightarrow> string \<Rightarrow> view \<Rightarrow> view" where
  "drive_call up file_name md5 (enabled, d, cs) =
     (case up (length cs) file_name md5 of
        UploadOk \<Rightarrow> (enabled, dict_set d md5 file_name, cs @ [(file_name, md5, UploadOk)])
      | UploadFalsy \<Rightarrow> (enabled, d, cs @ [(file_name, md5, UploadFalsy)])
      | RaiseQuota \<Rightarrow> (False, d, cs @ [(file_name, md5, RaiseQuota)])
      | RaiseOther \<Rightarrow> (enabled, d, cs @ [(file_name, md5, RaiseOther)]))"

definition wants_upload :: "string \<Rightarrow> view \<Rightarrow> bool" where
  "wants_upload md5 v \<longleftrightarrow> fst v \<and> \<not> truthy (dict_get (fst (snd v)) md5)"

fun drive_loop :: "adapter \<Rightarrow> string \<Rightarrow> string \<Rightarrow> nat \<Rightarrow> view \<Rightarrow> view" where
  "drive_loop up file_name md5 0 v = v"
| "drive_loop up file_name md5 (Suc n) v =
     (if wants_upload md5 v then drive_loop up file_name md5 n (drive_call up file_name md5 v)
      else v)"

text \<open>
  What holds of a drive during a run: every call that returned a truthy value left its
  checksum and its file name in the inventory; the names of these calls are pairwise
  different; no call follows such a call with the same checksum; nothing follows a call
  that raised the out-of-space exception, and the drive is off after it.
\<close>

definition call_name :: "string \<times> string \<times> upload_outcome \<Rightarrow> string" where
  "call_name c = fst c"

definition call_md5 :: "string \<times> string \<times> upload_outcome \<Rightarrow> string" where
  "call_md5 c = fst (snd c)"

definition call_outcome :: "string \<times> string \<times> upload_outcome \<Rightarrow> upload_outcome" where
  "call_outcome c = snd (snd c)"

definition recorded :: "inventory \<Rightarrow> calls \<Rightarrow> bool" where
  "recorded d cs \<longleftrightarrow>
     (\<forall>c \<in> set cs. call_outcome c = UploadOk \<longrightarrow>
        truthy (dict_get d (call_md5 c)) \<and> call_name c \<in> set (dict_values d) \<and> call_name c \<noteq> [])"

definition no_reupload :: "calls \<Rightarrow> bool" where
  "no_reupload cs \<longleftrightarrow>
     (\<forall>i j. i < j \<and> j < length cs \<and> call_outcome (cs ! i) = UploadOk \<longrightarrow>
        call_md5 (cs ! j) \<noteq> call_md5 (cs ! i))"

definition quota_is_last :: "calls \<Rightarrow> bool" where
  "quota_is_last cs \<longleftrightarrow>
     (\<forall>k. k < length cs \<and> call_outcome (cs ! k) = RaiseQuota \<longrightarrow> Suc k = length cs)"

definition drive_ok :: "view \<Rightarrow> bool" where
  "drive_ok v \<longleftrightarrow>
     recorded (fst (snd v)) (snd (snd v))
     \<and> distinct (map fst (uploaded (snd (snd v))))
     \<and> no_reupload (snd (snd v))
     \<and> quota_is_last (snd (snd v))
     \<and> (RaiseQuota \<in> call_outcome ` set (snd (snd v)) \<longrightarrow> \<not> fst v)"

section \<open>Concrete inputs\<close>

text \<open>
  The drives, the configuration and the photos that the examples below run the program
  on: a drive that answers every call in the same way, the default folder on both drives,
  and a photo with a given number of likes, a day of January 2020 and a checksum, whose
  URL ends in \<open>.jpg\<close>.
\<close>

definition always :: "upload_outcome \<Rightarrow> adapter" where
  "always r = (\<lambda>n file_name md5. r)"

definition drives :: "adapter \<Rightarrow> adapter \<Rightarrow> env" where
  "drives g y = \<lparr>google_upload = g, yandex_upload = y,
                 gdrive_path = Some ''/_vk_photo_archive/'',
                 yandex_path = Some ''/_vk_photo_archive/''\<rparr>"

definition jpg_photo :: "int \<Rightarrow> nat \<Rightarrow> string \<Rightarrow> photo" where
  "jpg_photo likes d md5 =
     \<lparr>ph_likes_count = Some likes, ph_date = \<lparr>year = 2020, month = 1, day = d\<rparr>,
      ph_url = ''https://vk.example/a/b.jpg?size=1'', ph_size = ''w'', ph_md5 = md5\<rparr>"

section \<open>Properties of the manifest\<close>













section \<open>Properties of the inventories\<close>

lemma map_of_dict_set: "map_of (dict_set d k v) = (map_of d)(k \<mapsto> v)"
  by (induction d) auto

lemma keys_dict_set:
  "map fst (dict_set d k v) = (if k \<in> set (map fst d) then map fst d else map fst d @ [k])"
  by (induction d) (auto simp: rev_image_eqI)

lemma distinct_dict_set: "distinct (map fst d) \<Longrightarrow> distinct (map fst (dict_set d k v))"
  by (simp add: keys_dict_set)

lemma map_of_build_yandex:
  "map_of (build_yandex files d) = map_of d ++ map_of (rev files)"
  by (induction files arbitrary: d) (auto simp: map_of_dict_set)

lemma distinct_build_yandex:
  "distinct (map fst d) \<Longrightarrow> distinct (map fst (build_yandex files d))"
  by (induction files arbitrary: d) (auto simp: distinct_dict_set)

lemma map_of_build_google:
  "map_of (build_google files d) = map_of d ++ map_of (rev (hashed files))"
  by (induction files arbitrary: d) (auto simp: map_of_dict_set split: option.splits)

lemma distinct_build_google:
  "distinct (map fst d) \<Longrightarrow> distinct (map fst (build_google files d))"
  by (induction files arbitrary: d) (auto simp: distinct_dict_set split: option.splits)

lemma hashed_append: "hashed (xs @ ys) = hashed xs @ hashed ys"
  by (induction xs) (auto split: option.splits)

lemma hashed_keys: "h \<in> fst ` set (hashed files) \<longleftrightarrow> Some h \<in> fst ` set files"
  by (induction files) (auto split: option.splits)

text \<open>
  Claim C9, as the program has it. The inventory built at the start of a run holds each
  checksum once, and the name it records for a checksum is the name of the last element
  of the listing with that checksum: an assignment to a key that is already there
  replaces the name. (For Google Drive the elements without \<open>md5Checksum\<close> are passed
  over.) A checksum that no element of the listing has is not in the inventory.
\<close>

theorem inventory_last_wins:
  "distinct (map fst (build_google gfiles []))
   \<and> dict_get (build_google gfiles []) h = map_of (rev (hashed gfiles)) h
   \<and> (Some h \<notin> fst ` set gafter \<longrightarrow>
        dict_get (build_google (gbefore @ (Some h, name) # gafter) []) h = Some name)
   \<and> (Some h \<notin> fst ` set gfiles \<longrightarrow> dict_get (build_google gfiles []) h = None)
   \<and> distinct (map fst (build_yandex yfiles []))
   \<and> dict_get (build_yandex yfiles []) h = map_of (rev yfiles) h
   \<and> (h \<notin> fst ` set yafter \<longrightarrow>
        dict_get (build_yandex (ybefore @ (h, name) # yafter) []) h = Some name)
   \<and> (h \<notin> fst ` set yfiles \<longrightarrow> dict_get (build_yandex yfiles []) h = None)"
proof (intro conjI impI)
  show "distinct (map fst (build_google gfiles []))"
    by (simp add: distinct_build_google)
  show "dict_get (build_google gfiles []) h = map_of (rev (hashed gfiles)) h"
    by (simp add: dict_get_def map_of_build_google)
  show "distinct (map fst (build_yandex yfiles []))"
    by (simp add: distinct_build_yandex)
  show "dict_get (build_yandex yfiles []) h = map_of (rev yfiles) h"
    by (simp add: dict_get_def map_of_build_yandex)
next
  assume "Some h \<notin> fst ` set gafter"
  then have "h \<notin> fst ` set (hashed gafter)"
    by (simp add: hashed_keys)
  then have "map_of (rev (hashed gafter)) h = None"
    by (simp add: map_of_eq_None_iff)
  then show "dict_get (build_google (gbefore @ (Some h, name) # gafter) []) h = Some name"
    by (simp add: dict_get_def map_of_build_google hashed_append map_add_def)
next
  assume "Some h \<notin> fst ` set gfiles"
  then have "h \<notin> fst ` set (hashed gfiles)"
    by (simp add: hashed_keys)
  then show "dict_get (build_google gfiles []) h = None"
    by (simp add: dict_get_def map_of_build_google map_of_eq_None_iff)
next
  assume "h \<notin> fst ` set yafter"
  then have "map_of (rev yafter) h = None"
    by (simp add: map_of_eq_None_iff)
  then show "dict_get (build_yandex (ybefore @ (h, name) # yafter) []) h = Some name"
    by (simp add: dict_get_def map_of_build_yandex map_add_def)
next
  assume "h \<notin> fst ` set yfiles"
  then show "dict_get (build_yandex yfiles []) h = None"
    by (simp add: dict_get_def map_of_build_yandex map_of_eq_None_iff)
qed

theorem inventory_last_wins_witness:
  "Some ''h'' \<notin> fst ` set [(None, ''c.doc''), (Some ''k'', ''d.jpg'')]
   \<and> dict_get (build_google ([(Some ''h'', ''a.jpg'')] @ (Some ''h'', ''b.jpg'')
                   # [(None, ''c.doc''), (Some ''k'', ''d.jpg'')]) []) ''h'' = Some ''b.jpg''
   \<and> ''h'' \<notin> fst ` set [(''k'', ''d.jpg'')]
   \<and> dict_get (build_yandex ([(''h'', ''a.jpg'')] @ (''h'', ''b.jpg'') # [(''k'', ''d.jpg'')]) [])
        ''h'' = Some ''b.jpg''"
proof -
  have g: "Some ''h'' \<notin> fst ` set [(None, ''c.doc''), (Some ''k'', ''d.jpg'')]"
    by simp
  have y: "''h'' \<notin> fst ` set [(''k'', ''d.jpg'')]"
    by simp
  from inventory_last_wins [of "[]" "''h''" "[(None, ''c.doc''), (Some ''k'', ''d.jpg'')]"
      "[(Some ''h'', ''a.jpg'')]" "''b.jpg''" "[]" "[(''k'', ''d.jpg'')]" "[(''h'', ''a.jpg'')]"] g y
  show ?thesis by simp
qed

text \<open>
  The claim as the specification states it (the first element of the listing with a
  checksum gives the name) fails on a listing with the same checksum twice.
\<close>

theorem inventory_first_wins_counterexample:
  "dict_get (build_google [(Some ''h'', ''first.jpg''), (Some ''h'', ''second.jpg'')] []) ''h''
     = Some ''second.jpg''
   \<and> dict_get (build_yandex [(''h'', ''first.jpg''), (''h'', ''second.jpg'')] []) ''h''
     = Some ''second.jpg''"
  by (simp add: dict_get_def)

section \<open>Properties of the file names\<close>




lemma str_nat_not_Nil: "str_nat n \<noteq> []"
  by (subst str_nat.simps) simp










lemma replace_char_not_Nil: "s \<noteq> [] \<Longrightarrow> r \<noteq> [] \<Longrightarrow> replace_char c r s \<noteq> []"
  by (cases s) (auto simp: replace_char_def)

lemma dated_name_not_Nil: "dated_name p \<noteq> []"
  by (simp add: dated_name_def)

lemma first_name_not_Nil: "first_name p \<noteq> []"
  by (simp add: first_name_def)

lemma renamed_not_Nil: "renamed d p \<noteq> []"
  by (simp add: renamed_def Let_def replace_char_not_Nil dated_name_not_Nil)


section \<open>Properties of the name loop\<close>

lemma name_loop_unfold:
  "name_loop st p i file_name =
     (if google_renames st p file_name
      then name_loop st p (count_prefixed (google_folder_files_list st) p + 1)
             (renamed (google_folder_files_list st) p)
      else if yandex_renames st p file_name
      then name_loop st p (count_prefixed (yandex_folder_files_list st) p + 1)
             (renamed (yandex_folder_files_list st) p)
      else Some file_name)"
  unfolding google_renames_def yandex_renames_def by (rule name_loop.simps)

lemma loop_body_cases:
  assumes "(if A then X else if B then Y else Some n) = Some y"
  obtains (first) "A" "X = Some y" | (second) "\<not> A" "B" "Y = Some y" | (stop) "\<not> A" "\<not> B" "y = n"
  using assms by (cases A; cases B; simp)

lemma name_loop_free:
  assumes "name_loop st p i file_name = Some y"
  shows "\<not> google_renames st p y \<and> \<not> yandex_renames st p y"
proof (rule name_loop.raw_induct
    [where P = "\<lambda>st p i file_name y. \<not> google_renames st p y \<and> \<not> yandex_renames st p y",
      OF _ assms], goal_cases)
  case (1 f st p i file_name y)
  from 1(2) show ?case
  proof (cases rule: loop_body_cases)
    case first
    from 1(1) [OF first(2)] show ?thesis .
  next
    case second
    from 1(1) [OF second(3)] show ?thesis .
  next
    case stop
    then show ?thesis by (simp add: google_renames_def yandex_renames_def)
  qed
qed

lemma name_loop_result:
  assumes "name_loop st p i file_name = Some y"
  shows "y = file_name \<or> y = renamed (google_folder_files_list st) p
         \<or> y = renamed (yandex_folder_files_list st) p"
proof (rule name_loop.raw_induct
    [where P = "\<lambda>st p i file_name y. y = file_name \<or> y = renamed (google_folder_files_list st) p
         \<or> y = renamed (yandex_folder_files_list st) p", OF _ assms], goal_cases)
  case (1 f st p i file_name y)
  from 1(2) show ?case
  proof (cases rule: loop_body_cases)
    case first
    from 1(1) [OF first(2)] show ?thesis by blast
  next
    case second
    from 1(1) [OF second(3)] show ?thesis by blast
  next
    case stop
    then show ?thesis by simp
  qed
qed

lemma name_loop_not_Nil:
  assumes "name_loop st p i file_name = Some y" and "file_name \<noteq> []"
  shows "y \<noteq> []"
  using name_loop_result [OF assms(1)] assms(2) renamed_not_Nil by metis

lemma name_loop_stops:
  assumes "\<not> google_renames st p file_name" and "\<not> yandex_renames st p file_name"
  shows "name_loop st p i file_name = Some file_name"
  using assms by (subst name_loop_unfold) simp

lemma name_loop_google_once:
  assumes "google_renames st p file_name"
    and "\<not> google_renames st p (renamed (google_folder_files_list st) p)"
    and "\<not> yandex_renames st p (renamed (google_folder_files_list st) p)"
  shows "name_loop st p i file_name = Some (renamed (google_folder_files_list st) p)"
  using assms by (subst name_loop_unfold) (simp add: name_loop_stops)


lemma name_loop_never_leaves:
  assumes step: "\<And>n. n \<in> S \<Longrightarrow>
        (google_renames st p n \<and> renamed (google_folder_files_list st) p \<in> S)
      \<or> (\<not> google_renames st p n \<and> yandex_renames st p n
          \<and> renamed (yandex_folder_files_list st) p \<in> S)"
    and start: "file_name \<in> S"
  shows "name_loop st p i file_name = None"
proof (rule ccontr)
  assume "name_loop st p i file_name \<noteq> None"
  then obtain y where y: "name_loop st p i file_name = Some y"
    by blast
  have "st = st \<longrightarrow> p = p \<longrightarrow> file_name \<notin> S"
  proof (rule name_loop.raw_induct
      [where P = "\<lambda>st' p' i n y. st' = st \<longrightarrow> p' = p \<longrightarrow> n \<notin> S", OF _ y], goal_cases)
    case (1 f st' p' i n y)
    show ?case
    proof (intro impI notI)
      assume eq: "st' = st" "p' = p" and n: "n \<in> S"
      from 1(2) [unfolded eq, folded google_renames_def yandex_renames_def] show False
      proof (cases rule: loop_body_cases)
        case first
        with step [OF n] 1(1) [OF first(2)] show False by blast
      next
        case second
        with step [OF n] 1(1) [OF second(3)] show False by blast
      next
        case stop
        with step [OF n] show False by blast
      qed
    qed
  qed
  with start show False by simp
qed


lemma name_loop_yandex_stuck:
  assumes "\<not> google_renames st p file_name" and "yandex_renames st p file_name"
    and "\<not> google_renames st p (renamed (yandex_folder_files_list st) p)"
    and "yandex_renames st p (renamed (yandex_folder_files_list st) p)"
  shows "name_loop st p i file_name = None"
  by (rule name_loop_never_leaves
        [where S = "{file_name, renamed (yandex_folder_files_list st) p}"])
     (use assms in auto)




section \<open>Properties of the two upload loops\<close>

subsection \<open>Dictionaries and records of calls\<close>

lemma drive_loop_stop: "\<not> wants_upload md5 v \<Longrightarrow> drive_loop up file_name md5 n v = v"
  by (cases n) simp_all

lemma map_of_dict_set_same: "dict_get (dict_set d k v) k = Some v"
  by (simp add: dict_get_def map_of_dict_set)

lemma drive_call_Ok_settled:
  assumes "up (length (snd (snd v))) file_name md5 = UploadOk" and "file_name \<noteq> []"
  shows "\<not> wants_upload md5 (drive_call up file_name md5 v)"
  using assms by (cases v) (simp add: wants_upload_def truthy_def map_of_dict_set_same)

lemma dict_get_dict_set: "dict_get (dict_set d k v) h = (if h = k then Some v else dict_get d h)"
  by (simp add: dict_get_def map_of_dict_set)

lemma in_dict_set_new: "(k, v) \<in> set (dict_set d k v)"
  by (induction d) auto

lemma in_dict_set_keep:
  "(k', x) \<in> set d \<Longrightarrow> \<not> truthy (dict_get d k) \<Longrightarrow> x \<noteq> [] \<Longrightarrow> (k', x) \<in> set (dict_set d k v)"
  by (induction d) (auto simp: dict_get_def truthy_def split: if_splits)

lemma dict_values_dict_set_new: "v \<in> set (dict_values (dict_set d k v))"
  using in_dict_set_new [of k v d] by (force simp: dict_values_def)

lemma dict_values_dict_set_keep:
  assumes "x \<in> set (dict_values d)" and "\<not> truthy (dict_get d k)" and "x \<noteq> []"
  shows "x \<in> set (dict_values (dict_set d k v))"
proof -
  from assms(1) obtain k' where "(k', x) \<in> set d"
    by (auto simp: dict_values_def)
  from in_dict_set_keep [OF this assms(2,3)] show ?thesis
    by (force simp: dict_values_def)
qed

lemma uploaded_append:
  "uploaded (cs @ [c]) =
     uploaded cs @ (if call_outcome c = UploadOk then [(call_name c, call_md5 c)] else [])"
  by (cases c) (simp add: uploaded_def call_outcome_def call_name_def call_md5_def)

lemma uploaded_from_call:
  "(n, h) \<in> set (uploaded cs) \<Longrightarrow>
     \<exists>c \<in> set cs. call_name c = n \<and> call_md5 c = h \<and> call_outcome c = UploadOk"
  by (force simp: uploaded_def call_name_def call_md5_def call_outcome_def)

lemma no_reupload_append:
  assumes "no_reupload cs"
    and "\<And>c'. c' \<in> set cs \<Longrightarrow> call_outcome c' = UploadOk \<Longrightarrow> call_md5 c' \<noteq> call_md5 c"
  shows "no_reupload (cs @ [c])"
  unfolding no_reupload_def
proof (intro allI impI, elim conjE)
  fix i j
  assume ij: "i < j" "j < length (cs @ [c])" and ok: "call_outcome ((cs @ [c]) ! i) = UploadOk"
  from ij have i: "i < length cs" by simp
  show "call_md5 ((cs @ [c]) ! j) \<noteq> call_md5 ((cs @ [c]) ! i)"
  proof (cases "j < length cs")
    case True
    with assms(1) ij i ok show ?thesis
      by (simp add: no_reupload_def nth_append)
  next
    case False
    with ij have "j = length cs" by simp
    with assms(2) [of "cs ! i"] i ok show ?thesis
      by (simp add: nth_append)
  qed
qed

lemma quota_is_last_append:
  assumes "RaiseQuota \<notin> call_outcome ` set cs"
  shows "quota_is_last (cs @ [c])"
  unfolding quota_is_last_def
proof (intro allI impI, elim conjE)
  fix k
  assume k: "k < length (cs @ [c])" and q: "call_outcome ((cs @ [c]) ! k) = RaiseQuota"
  show "Suc k = length (cs @ [c])"
  proof (cases "k < length cs")
    case True
    then have "call_outcome (cs ! k) \<in> call_outcome ` set cs" by simp
    with assms True q show ?thesis
      by (simp add: nth_append)
  next
    case False
    with k show ?thesis by simp
  qed
qed

lemma recorded_append:
  assumes "recorded d cs"
    and "call_outcome c = UploadOk \<Longrightarrow>
           truthy (dict_get d (call_md5 c)) \<and> call_name c \<in> set (dict_values d) \<and> call_name c \<noteq> []"
  shows "recorded d (cs @ [c])"
  using assms by (auto simp: recorded_def)

lemma recorded_dict_set:
  assumes "recorded d cs" and "\<not> truthy (dict_get d k)" and "v \<noteq> []"
  shows "recorded (dict_set d k v) cs"
  using assms
  by (auto simp: recorded_def dict_get_dict_set truthy_def dict_values_dict_set_keep)

lemma recorded_name_taken:
  assumes "recorded d cs" and "n \<in> fst ` set (uploaded cs)"
  shows "n \<in> set (dict_values d)"
proof -
  from assms(2) obtain h where "(n, h) \<in> set (uploaded cs)"
    by auto
  from uploaded_from_call [OF this] assms(1) show ?thesis
    by (auto simp: recorded_def)
qed

lemma drive_call_ok:
  assumes ok: "drive_ok v" and w: "wants_upload md5 v" and ne: "file_name \<noteq> []"
    and free: "file_name \<notin> set (dict_values (fst (snd v)))"
  shows "drive_ok (drive_call up file_name md5 v)"
proof -
  obtain enabled d cs where v: "v = (enabled, d, cs)"
    by (cases v)
  from w v have en: "enabled" and nt: "\<not> truthy (dict_get d md5)"
    by (simp_all add: wants_upload_def)
  from ok v have rec: "recorded d cs" and dis: "distinct (map fst (uploaded cs))"
    and nore: "no_reupload cs" and ql: "quota_is_last cs"
    and q: "RaiseQuota \<in> call_outcome ` set cs \<longrightarrow> \<not> enabled"
    by (simp_all add: drive_ok_def)
  from q en have noq: "RaiseQuota \<notin> call_outcome ` set cs"
    by blast
  define r where "r = up (length cs) file_name md5"
  define c where "c = (file_name, md5, r)"
  have c_simps: "call_name c = file_name" "call_md5 c = md5" "call_outcome c = r"
    by (simp_all add: c_def call_name_def call_md5_def call_outcome_def)
  have fresh: "file_name \<notin> fst ` set (uploaded cs)"
    using recorded_name_taken [OF rec] free v by auto
  have dis': "distinct (map fst (uploaded (cs @ [c])))"
    using dis fresh by (simp add: uploaded_append c_simps)
  have nore': "no_reupload (cs @ [c])"
  proof (rule no_reupload_append [OF nore])
    fix c' assume "c' \<in> set cs" "call_outcome c' = UploadOk"
    with rec have "truthy (dict_get d (call_md5 c'))"
      by (auto simp: recorded_def)
    with nt show "call_md5 c' \<noteq> call_md5 c"
      by (auto simp: c_simps)
  qed
  have ql': "quota_is_last (cs @ [c])"
    by (rule quota_is_last_append [OF noq])
  show ?thesis
  proof (cases r)
    case UploadOk
    have "recorded (dict_set d md5 file_name) (cs @ [c])"
      by (rule recorded_append [OF recorded_dict_set [OF rec nt ne]])
         (simp add: c_simps dict_get_dict_set truthy_def ne dict_values_dict_set_new)
    with dis' nore' ql' noq UploadOk show ?thesis
      by (simp add: v drive_ok_def r_def [symmetric] c_def call_outcome_def)
  next
    case UploadFalsy
    have "recorded d (cs @ [c])"
      by (rule recorded_append [OF rec]) (simp add: c_simps UploadFalsy)
    with dis' nore' ql' noq UploadFalsy show ?thesis
      by (simp add: v drive_ok_def r_def [symmetric] c_def call_outcome_def)
  next
    case RaiseQuota
    have "recorded d (cs @ [c])"
      by (rule recorded_append [OF rec]) (simp add: c_simps RaiseQuota)
    with dis' nore' ql' noq RaiseQuota show ?thesis
      by (simp add: v drive_ok_def r_def [symmetric] c_def call_outcome_def)
  next
    case RaiseOther
    have "recorded d (cs @ [c])"
      by (rule recorded_append [OF rec]) (simp add: c_simps RaiseOther)
    with dis' nore' ql' noq RaiseOther show ?thesis
      by (simp add: v drive_ok_def r_def [symmetric] c_def call_outcome_def)
  qed
qed

lemma drive_call_still_free:
  assumes "wants_upload md5 (drive_call up file_name md5 v)" and "file_name \<noteq> []"
    and "file_name \<notin> set (dict_values (fst (snd v)))"
  shows "file_name \<notin> set (dict_values (fst (snd (drive_call up file_name md5 v))))"
proof -
  obtain enabled d cs where v: "v = (enabled, d, cs)"
    by (cases v)
  show ?thesis
  proof (cases "up (length cs) file_name md5")
    case UploadOk
    with assms(1,2) v show ?thesis
      by (simp add: wants_upload_def dict_get_dict_set truthy_def)
  qed (use assms(3) v in simp_all)
qed

lemma drive_loop_ok:
  assumes "drive_ok v" and "file_name \<noteq> []"
    and "wants_upload md5 v \<longrightarrow> file_name \<notin> set (dict_values (fst (snd v)))"
  shows "drive_ok (drive_loop up file_name md5 n v)"
  using assms
proof (induction n arbitrary: v)
  case 0
  then show ?case by simp
next
  case (Suc n)
  show ?case
  proof (cases "wants_upload md5 v")
    case False
    with Suc.prems show ?thesis by simp
  next
    case True
    with Suc.prems have free: "file_name \<notin> set (dict_values (fst (snd v)))"
      by simp
    have "drive_ok (drive_loop up file_name md5 n (drive_call up file_name md5 v))"
    proof (rule Suc.IH)
      show "drive_ok (drive_call up file_name md5 v)"
        by (rule drive_call_ok [OF Suc.prems(1) True Suc.prems(2) free])
      show "file_name \<noteq> []" by (rule Suc.prems(2))
      show "wants_upload md5 (drive_call up file_name md5 v) \<longrightarrow>
            file_name \<notin> set (dict_values (fst (snd (drive_call up file_name md5 v))))"
        using drive_call_still_free [OF _ Suc.prems(2) free] by blast
    qed
    with True show ?thesis by simp
  qed
qed

subsection \<open>The Google Drive loop\<close>

lemma google_try_disabled: "\<not> gdrive st \<Longrightarrow> google_try e p file_name retry st = (False, st)"
  by (simp add: google_try_def)

lemma google_try_exists:
  "gdrive st \<Longrightarrow> dict_get (google_folder_files_list st) (ph_md5 p) = Some n \<Longrightarrow> n \<noteq> [] \<Longrightarrow>
     google_try e p file_name retry st =
       (True, st\<lparr>log := log st @ [LS_FILE_EXIST GoogleDrive file_name n]\<rparr>)"
  by (simp add: google_try_def)

lemma google_try_upload:
  "gdrive st \<Longrightarrow> \<not> truthy (dict_get (google_folder_files_list st) (ph_md5 p)) \<Longrightarrow>
     google_try e p file_name retry st = google_upload_file e p file_name retry st"
  by (auto simp: google_try_def truthy_def split: option.splits)

lemma google_upload_file_view:
  "google_view (snd (google_upload_file e p file_name retry st)) =
     drive_call (google_upload e) file_name (ph_md5 p) (google_view st)"
  by (simp add: google_upload_file_def google_view_def Let_def
      split: upload_outcome.splits prod.splits option.splits db_error.splits)

lemma google_upload_file_frame:
  "yandex_view (snd (google_upload_file e p file_name retry st)) = yandex_view st"
  by (simp add: google_upload_file_def yandex_view_def Let_def
      split: upload_outcome.splits prod.splits option.splits db_error.splits)

lemma google_upload_file_break:
  "fst (google_upload_file e p file_name retry st) \<Longrightarrow>
     google_upload e (length (google_calls st)) file_name (ph_md5 p) = UploadOk"
  by (simp add: google_upload_file_def Let_def
      split: upload_outcome.splits prod.splits option.splits db_error.splits)

lemma google_try_frame: "yandex_view (snd (google_try e p file_name retry st)) = yandex_view st"
  by (simp add: google_try_def google_upload_file_frame split: option.splits)
     (simp add: yandex_view_def)

lemma google_loop_frame: "yandex_view (google_loop e p file_name rs st) = yandex_view st"
proof (induction rs arbitrary: st)
  case Nil
  then show ?case by simp
next
  case (Cons r rs)
  obtain b st' where t: "google_try e p file_name r st = (b, st')"
    by (cases "google_try e p file_name r st")
  with google_try_frame [of e p file_name r st] have "yandex_view st' = yandex_view st"
    by simp
  with t Cons.IH [of st'] show ?case
    by (cases b) simp_all
qed

lemma google_loop_view:
  assumes "file_name \<noteq> []"
  shows "google_view (google_loop e p file_name rs st) =
           drive_loop (google_upload e) file_name (ph_md5 p) (length rs) (google_view st)"
proof (induction rs arbitrary: st)
  case Nil
  then show ?case by simp
next
  case (Cons r rs)
  show ?case
  proof (cases "wants_upload (ph_md5 p) (google_view st)")
    case False
    then have stop: "drive_loop (google_upload e) file_name (ph_md5 p) n (google_view st) = google_view st" for n
      by (rule drive_loop_stop)
    show ?thesis
    proof (cases "gdrive st")
      case True
      with False obtain n where "dict_get (google_folder_files_list st) (ph_md5 p) = Some n" "n \<noteq> []"
        by (auto simp: wants_upload_def google_view_def truthy_def split: option.splits)
      with True False show ?thesis
        by (simp add: google_try_exists google_view_def)
    next
      case off: False
      with Cons.IH [of st] False show ?thesis
        by (simp add: google_try_disabled stop)
    qed
  next
    case True
    then have g: "gdrive st" "\<not> truthy (dict_get (google_folder_files_list st) (ph_md5 p))"
      by (simp_all add: wants_upload_def google_view_def)
    obtain b st' where t: "google_upload_file e p file_name r st = (b, st')"
      by (cases "google_upload_file e p file_name r st")
    with google_upload_file_view [of e p file_name r st]
    have v: "google_view st' = drive_call (google_upload e) file_name (ph_md5 p) (google_view st)"
      by simp
    show ?thesis
    proof (cases b)
      case False
      with t g True v Cons.IH [of st'] show ?thesis
        by (simp add: google_try_upload)
    next
      case brk: True
      with t google_upload_file_break [of e p file_name r st]
      have "google_upload e (length (snd (snd (google_view st)))) file_name (ph_md5 p) = UploadOk"
        by (simp add: google_view_def)
      from drive_call_Ok_settled [of "google_upload e" "google_view st" file_name "ph_md5 p", OF this assms] v
      have "drive_loop (google_upload e) file_name (ph_md5 p) (length rs) (google_view st') = google_view st'"
        by (simp add: drive_loop_stop)
      with t g True v brk show ?thesis
        by (simp add: google_try_upload)
    qed
  qed
qed

subsection \<open>The Yandex Disk loop\<close>

lemma yandex_try_disabled: "\<not> yadisk st \<Longrightarrow> yandex_try e p file_name retry st = (False, st)"
  by (simp add: yandex_try_def)

lemma yandex_try_exists:
  "yadisk st \<Longrightarrow> dict_get (yandex_folder_files_list st) (ph_md5 p) = Some n \<Longrightarrow> n \<noteq> [] \<Longrightarrow>
     yandex_try e p file_name retry st =
       (True, st\<lparr>log := log st @ [LS_FILE_EXIST YandexDisk file_name n]\<rparr>)"
  by (simp add: yandex_try_def)

lemma yandex_try_upload:
  "yadisk st \<Longrightarrow> \<not> truthy (dict_get (yandex_folder_files_list st) (ph_md5 p)) \<Longrightarrow>
     yandex_try e p file_name retry st = yandex_upload_file e p file_name retry st"
  by (auto simp: yandex_try_def truthy_def split: option.splits)

lemma yandex_upload_file_view:
  "yandex_view (snd (yandex_upload_file e p file_name retry st)) =
     drive_call (yandex_upload e) file_name (ph_md5 p) (yandex_view st)"
  by (simp add: yandex_upload_file_def yandex_view_def Let_def
      split: upload_outcome.splits prod.splits option.splits db_error.splits)

lemma yandex_upload_file_frame:
  "google_view (snd (yandex_upload_file e p file_name retry st)) = google_view st"
  by (simp add: yandex_upload_file_def google_view_def Let_def
      split: upload_outcome.splits prod.splits option.splits db_error.splits)

lemma yandex_upload_file_break:
  "fst (yandex_upload_file e p file_name retry st) \<Longrightarrow>
     yandex_upload e (length (yandex_calls st)) file_name (ph_md5 p) = UploadOk"
  by (simp add: yandex_upload_file_def Let_def
      split: upload_outcome.splits prod.splits option.splits db_error.splits)

lemma yandex_try_frame: "google_view (snd (yandex_try e p file_name retry st)) = google_view st"
  by (simp add: yandex_try_def yandex_upload_file_frame split: option.splits)
     (simp add: google_view_def)

lemma yandex_loop_frame: "google_view (yandex_loop e p file_name rs st) = google_view st"
proof (induction rs arbitrary: st)
  case Nil
  then show ?case by simp
next
  case (Cons r rs)
  obtain b st' where t: "yandex_try e p file_name r st = (b, st')"
    by (cases "yandex_try e p file_name r st")
  with yandex_try_frame [of e p file_name r st] have "google_view st' = google_view st"
    by simp
  with t Cons.IH [of st'] show ?case
    by (cases b) simp_all
qed

lemma yandex_loop_view:
  assumes "file_name \<noteq> []"
  shows "yandex_view (yandex_loop e p file_name rs st) =
           drive_loop (yandex_upload e) file_name (ph_md5 p) (length rs) (yandex_view st)"
proof (induction rs arbitrary: st)
  case Nil
  then show ?case by simp
next
  case (Cons r rs)
  show ?case
  proof (cases "wants_upload (ph_md5 p) (yandex_view st)")
    case False
    then have stop: "drive_loop (yandex_upload e) file_name (ph_md5 p) n (yandex_view st) = yandex_view st" for n
      by (rule drive_loop_stop)
    show ?thesis
    proof (cases "yadisk st")
      case True
      with False obtain n where "dict_get (yandex_folder_files_list st) (ph_md5 p) = Some n" "n \<noteq> []"
        by (auto simp: wants_upload_def yandex_view_def truthy_def split: option.splits)
      with True False show ?thesis
        by (simp add: yandex_try_exists yandex_view_def)
    next
      case off: False
      with Cons.IH [of st] False show ?thesis
        by (simp add: yandex_try_disabled stop)
    qed
  next
    case True
    then have g: "yadisk st" "\<not> truthy (dict_get (yandex_folder_files_list st) (ph_md5 p))"
      by (simp_all add: wants_upload_def yandex_view_def)
    obtain b st' where t: "yandex_upload_file e p file_name r st = (b, st')"
      by (cases "yandex_upload_file e p file_name r st")
    with yandex_upload_file_view [of e p file_name r st]
    have v: "yandex_view st' = drive_call (yandex_upload e) file_name (ph_md5 p) (yandex_view st)"
      by simp
    show ?thesis
    proof (cases b)
      case False
      with t g True v Cons.IH [of st'] show ?thesis
        by (simp add: yandex_try_upload)
    next
      case brk: True
      with t yandex_upload_file_break [of e p file_name r st]
      have "yandex_upload e (length (snd (snd (yandex_view st)))) file_name (ph_md5 p) = UploadOk"
        by (simp add: yandex_view_def)
      from drive_call_Ok_settled [of "yandex_upload e" "yandex_view st" file_name "ph_md5 p", OF this assms] v
      have "drive_loop (yandex_upload e) file_name (ph_md5 p) (length rs) (yandex_view st') = yandex_view st'"
        by (simp add: drive_loop_stop)
      with t g True v brk show ?thesis
        by (simp add: yandex_try_upload)
    qed
  qed
qed

subsection \<open>One photo, and the whole list\<close>

lemma retries_length: "length retries = 3"
  by (simp add: retries_def)

lemma process_photo_views:
  assumes "process_photo e p st = Some st'"
  obtains file_name where "name_loop st p 0 (first_name p) = Some file_name"
    and "file_name \<noteq> []"
    and "st' = yandex_loop e p file_name retries (google_loop e p file_name retries st)"
    and "google_view st' = drive_loop (google_upload e) file_name (ph_md5 p) 3 (google_view st)"
    and "yandex_view st' = drive_loop (yandex_upload e) file_name (ph_md5 p) 3 (yandex_view st)"
proof -
  from assms obtain file_name where n: "name_loop st p 0 (first_name p) = Some file_name"
    and st': "st' = yandex_loop e p file_name retries (google_loop e p file_name retries st)"
    by (auto simp: process_photo_def split: option.splits)
  from name_loop_not_Nil [OF n first_name_not_Nil] have ne: "file_name \<noteq> []" .
  have g: "google_view st' = drive_loop (google_upload e) file_name (ph_md5 p) 3 (google_view st)"
    by (simp add: st' yandex_loop_frame google_loop_view [OF ne] retries_length)
  have y: "yandex_view st' = drive_loop (yandex_upload e) file_name (ph_md5 p) 3 (yandex_view st)"
    by (simp add: st' yandex_loop_view [OF ne] google_loop_frame retries_length)
  from n ne st' g y that show thesis by blast
qed

lemma name_loop_safe:
  assumes "name_loop st p i file_name = Some y"
  shows "wants_upload (ph_md5 p) (google_view st) \<longrightarrow> y \<notin> set (dict_values (google_folder_files_list st))"
    and "wants_upload (ph_md5 p) (yandex_view st) \<longrightarrow> y \<notin> set (dict_values (yandex_folder_files_list st))"
  using name_loop_free [OF assms]
  by (auto simp: google_renames_def yandex_renames_def wants_upload_def google_view_def
      yandex_view_def name_taken_def)

lemma process_photo_ok:
  assumes "process_photo e p st = Some st'"
    and "drive_ok (google_view st)" and "drive_ok (yandex_view st)"
  shows "drive_ok (google_view st') \<and> drive_ok (yandex_view st')"
proof -
  from assms(1) obtain file_name where n: "name_loop st p 0 (first_name p) = Some file_name"
    and ne: "file_name \<noteq> []"
    and g: "google_view st' = drive_loop (google_upload e) file_name (ph_md5 p) 3 (google_view st)"
    and y: "yandex_view st' = drive_loop (yandex_upload e) file_name (ph_md5 p) 3 (yandex_view st)"
    by (rule process_photo_views)
  from name_loop_safe [OF n]
  have "wants_upload (ph_md5 p) (google_view st) \<longrightarrow>
          file_name \<notin> set (dict_values (fst (snd (google_view st))))"
    and "wants_upload (ph_md5 p) (yandex_view st) \<longrightarrow>
          file_name \<notin> set (dict_values (fst (snd (yandex_view st))))"
    by (simp_all add: google_view_def yandex_view_def)
  with assms(2,3) ne g y show ?thesis
    by (simp add: drive_loop_ok)
qed

lemma run_ok:
  assumes "run e photos st = Some st'"
    and "drive_ok (google_view st)" and "drive_ok (yandex_view st)"
  shows "drive_ok (google_view st') \<and> drive_ok (yandex_view st')"
  using assms
proof (induction photos arbitrary: st)
  case Nil
  then show ?case by simp
next
  case (Cons p photos)
  from Cons.prems(1) obtain st1 where p: "process_photo e p st = Some st1"
    and r: "run e photos st1 = Some st'"
    by (auto split: option.splits)
  from process_photo_ok [OF p Cons.prems(2,3)] Cons.IH [OF r] show ?case
    by blast
qed

lemma start_ok:
  "drive_ok (google_view (start g y ginv yinv))" "drive_ok (yandex_view (start g y ginv yinv))"
  by (simp_all add: drive_ok_def google_view_def yandex_view_def start_def recorded_def
      uploaded_def no_reupload_def quota_is_last_def)

lemma process_photo_eq:
  "name_loop st p 0 (first_name p) = Some file_name \<Longrightarrow>
     process_photo e p st =
       Some (yandex_loop e p file_name retries (google_loop e p file_name retries st))"
  by (simp add: process_photo_def)




text \<open>
  Claim C5. In every run whose name loops all end, and on each drive, the names of the
  calls that returned a truthy value are pairwise different: no two uploads of the run
  went to the same drive under the same name, so a name stands for one checksum only.
  Each of these names is among the names of the drive's inventory when the run ends,
  since the loop writes it there as soon as the call returns.
\<close>

theorem uploaded_names_injective:
  assumes "run e photos (start g y ginv yinv) = Some st'"
  shows "distinct (map fst (uploaded (google_calls st')))
       \<and> distinct (map fst (uploaded (yandex_calls st')))
       \<and> (\<forall>n h h'. (n, h) \<in> set (uploaded (google_calls st'))
              \<and> (n, h') \<in> set (uploaded (google_calls st')) \<longrightarrow> h = h')
       \<and> (\<forall>n h h'. (n, h) \<in> set (uploaded (yandex_calls st'))
              \<and> (n, h') \<in> set (uploaded (yandex_calls st')) \<longrightarrow> h = h')
       \<and> fst ` set (uploaded (google_calls st')) \<subseteq> set (dict_values (google_folder_files_list st'))
       \<and> fst ` set (uploaded (yandex_calls st')) \<subseteq> set (dict_values (yandex_folder_files_list st'))"
proof -
  from run_ok [OF assms start_ok]
  have ok: "drive_ok (google_view st')" "drive_ok (yandex_view st')"
    by simp_all
  then have dg: "distinct (map fst (uploaded (google_calls st')))"
    and dy: "distinct (map fst (uploaded (yandex_calls st')))"
    and rg: "recorded (google_folder_files_list st') (google_calls st')"
    and ry: "recorded (yandex_folder_files_list st') (yandex_calls st')"
    by (simp_all add: drive_ok_def google_view_def yandex_view_def)
  from dg have ig: "\<forall>n h h'. (n, h) \<in> set (uploaded (google_calls st'))
              \<and> (n, h') \<in> set (uploaded (google_calls st')) \<longrightarrow> h = h'"
    by (meson eq_key_imp_eq_value)
  from dy have iy: "\<forall>n h h'. (n, h) \<in> set (uploaded (yandex_calls st'))
              \<and> (n, h') \<in> set (uploaded (yandex_calls st')) \<longrightarrow> h = h'"
    by (meson eq_key_imp_eq_value)
  from recorded_name_taken [OF rg] recorded_name_taken [OF ry] dg dy ig iy
  show ?thesis by blast
qed


theorem uploaded_names_injective_witness:
  "\<exists>st'. run (drives (always UploadOk) (always UploadOk))
            [jpg_photo 10 1 ''c1'', jpg_photo 10 2 ''c2''] (start True True [] []) = Some st'
      \<and> map fst (uploaded (google_calls st')) = [''10.jpg'', ''10_2020-01-02.jpg'']
      \<and> distinct (map fst (uploaded (google_calls st')))
      \<and> distinct (map fst (uploaded (yandex_calls st')))"
proof -
  let ?e = "drives (always UploadOk) (always UploadOk)"
  let ?p1 = "jpg_photo 10 1 ''c1''"
  let ?p2 = "jpg_photo 10 2 ''c2''"
  let ?st0 = "start True True [] []"
  let ?st1 = "yandex_loop ?e ?p1 ''10.jpg'' retries (google_loop ?e ?p1 ''10.jpg'' retries ?st0)"
  let ?st2 = "yandex_loop ?e ?p2 ''10_2020-01-02.jpg'' retries
                (google_loop ?e ?p2 ''10_2020-01-02.jpg'' retries ?st1)"
  have f1: "first_name ?p1 = ''10.jpg''"
    by code_simp
  have "\<not> google_renames ?st0 ?p1 (first_name ?p1)" "\<not> yandex_renames ?st0 ?p1 (first_name ?p1)"
    by code_simp+
  then have "name_loop ?st0 ?p1 0 (first_name ?p1) = Some ''10.jpg''"
    unfolding f1 [symmetric] by (rule name_loop_stops)
  then have p1: "process_photo ?e ?p1 ?st0 = Some ?st1"
    by (rule process_photo_eq)
  have r2: "renamed (google_folder_files_list ?st1) ?p2 = ''10_2020-01-02.jpg''"
    by code_simp
  have "google_renames ?st1 ?p2 (first_name ?p2)"
    "\<not> google_renames ?st1 ?p2 (renamed (google_folder_files_list ?st1) ?p2)"
    "\<not> yandex_renames ?st1 ?p2 (renamed (google_folder_files_list ?st1) ?p2)"
    by code_simp+
  then have "name_loop ?st1 ?p2 0 (first_name ?p2) = Some ''10_2020-01-02.jpg''"
    unfolding r2 [symmetric] by (rule name_loop_google_once)
  then have p2: "process_photo ?e ?p2 ?st1 = Some ?st2"
    by (rule process_photo_eq)
  have run: "run ?e [?p1, ?p2] ?st0 = Some ?st2"
    by (simp only: run.simps p1 p2 option.case)
  have names: "map fst (uploaded (google_calls ?st2)) = [''10.jpg'', ''10_2020-01-02.jpg'']"
    by code_simp
  from uploaded_names_injective [OF run]
  have "distinct (map fst (uploaded (google_calls ?st2)))"
    and "distinct (map fst (uploaded (yandex_calls ?st2)))"
    by blast+
  then show ?thesis
    by (intro exI [of _ ?st2] conjI run names)
qed

subsection \<open>A loop that skips, a drive that is full, a drive that fails\<close>


lemma google_loop_exists:
  assumes "gdrive st" and "dict_get (google_folder_files_list st) (ph_md5 p) = Some n" and "n \<noteq> []"
  shows "google_loop e p file_name retries st =
           st\<lparr>log := log st @ [LS_FILE_EXIST GoogleDrive file_name n]\<rparr>"
  using assms by (simp add: retries_def google_try_exists)

lemma google_upload_file_RaiseOther:
  assumes "google_upload e (length (google_calls st)) file_name (ph_md5 p) = RaiseOther"
  shows "google_upload_file e p file_name retry st =
           (False, st\<lparr>google_calls := google_calls st @ [(file_name, ph_md5 p, RaiseOther)],
                       log := log st @ [LS_UPLOAD_FAILED GoogleDrive file_name (2 - retry)]\<rparr>)"
  using assms by (simp add: google_upload_file_def)



lemma google_loop_transient:
  assumes "gdrive st" and "\<not> truthy (dict_get (google_folder_files_list st) (ph_md5 p))"
    and "\<forall>k<3. google_upload e (length (google_calls st) + k) file_name (ph_md5 p) = RaiseOther"
  shows "google_loop e p file_name retries st =
           st\<lparr>google_calls := google_calls st @ replicate 3 (file_name, ph_md5 p, RaiseOther),
               log := log st @ [LS_UPLOAD_FAILED GoogleDrive file_name 2,
                                LS_UPLOAD_FAILED GoogleDrive file_name 1,
                                LS_UPLOAD_FAILED GoogleDrive file_name 0]\<rparr>"
proof -
  let ?c = "(file_name, ph_md5 p, RaiseOther)"
  from assms(3) have u0: "google_upload e (length (google_calls st)) file_name (ph_md5 p) = RaiseOther"
    and u1: "google_upload e (Suc (length (google_calls st))) file_name (ph_md5 p) = RaiseOther"
    and u2: "google_upload e (Suc (Suc (length (google_calls st)))) file_name (ph_md5 p) = RaiseOther"
    using assms(3) [rule_format, of 0] assms(3) [rule_format, of 1] assms(3) [rule_format, of 2]
    by (simp_all add: numeral_2_eq_2)
  let ?st1 = "st\<lparr>google_calls := google_calls st @ [?c],
                 log := log st @ [LS_UPLOAD_FAILED GoogleDrive file_name 2]\<rparr>"
  let ?st2 = "?st1\<lparr>google_calls := google_calls ?st1 @ [?c],
                 log := log ?st1 @ [LS_UPLOAD_FAILED GoogleDrive file_name 1]\<rparr>"
  let ?st3 = "?st2\<lparr>google_calls := google_calls ?st2 @ [?c],
                 log := log ?st2 @ [LS_UPLOAD_FAILED GoogleDrive file_name 0]\<rparr>"
  have t0: "google_try e p file_name 0 st = (False, ?st1)"
    using assms(1,2) u0 by (simp add: google_try_upload google_upload_file_RaiseOther)
  have t1: "google_try e p file_name 1 ?st1 = (False, ?st2)"
    using assms(1,2) u1 by (simp add: google_try_upload google_upload_file_RaiseOther)
  have t2: "google_try e p file_name 2 ?st2 = (False, ?st3)"
    using assms(1,2) u2 by (simp add: google_try_upload google_upload_file_RaiseOther)
  have "google_loop e p file_name retries st = ?st3"
    unfolding retries_def by (simp only: google_loop.simps t0 t1 t2 prod.case bool.case if_False)
  then show ?thesis
    by (simp add: numeral_3_eq_3)
qed


lemma yandex_loop_exists:
  assumes "yadisk st" and "dict_get (yandex_folder_files_list st) (ph_md5 p) = Some n" and "n \<noteq> []"
  shows "yandex_loop e p file_name retries st =
           st\<lparr>log := log st @ [LS_FILE_EXIST YandexDisk file_name n]\<rparr>"
  using assms by (simp add: retries_def yandex_try_exists)

lemma yandex_upload_file_RaiseOther:
  assumes "yandex_upload e (length (yandex_calls st)) file_name (ph_md5 p) = RaiseOther"
  shows "yandex_upload_file e p file_name retry st =
           (False, st\<lparr>yandex_calls := yandex_calls st @ [(file_name, ph_md5 p, RaiseOther)],
                       log := log st @ [LS_UPLOAD_FAILED YandexDisk file_name (2 - retry)]\<rparr>)"
  using assms by (simp add: yandex_upload_file_def)



lemma yandex_loop_transient:
  assumes "yadisk st" and "\<not> truthy (dict_get (yandex_folder_files_list st) (ph_md5 p))"
    and "\<forall>k<3. yandex_upload e (length (yandex_calls st) + k) file_name (ph_md5 p) = RaiseOther"
  shows "yandex_loop e p file_name retries st =
           st\<lparr>yandex_calls := yandex_calls st @ replicate 3 (file_name, ph_md5 p, RaiseOther),
               log := log st @ [LS_UPLOAD_FAILED YandexDisk file_name 2,
                                LS_UPLOAD_FAILED YandexDisk file_name 1,
                                LS_UPLOAD_FAILED YandexDisk file_name 0]\<rparr>"
proof -
  let ?c = "(file_name, ph_md5 p, RaiseOther)"
  from assms(3) have u0: "yandex_upload e (length (yandex_calls st)) file_name (ph_md5 p) = RaiseOther"
    and u1: "yandex_upload e (Suc (length (yandex_calls st))) file_name (ph_md5 p) = RaiseOther"
    and u2: "yandex_upload e (Suc (Suc (length (yandex_calls st)))) file_name (ph_md5 p) = RaiseOther"
    using assms(3) [rule_format, of 0] assms(3) [rule_format, of 1] assms(3) [rule_format, of 2]
    by (simp_all add: numeral_2_eq_2)
  let ?st1 = "st\<lparr>yandex_calls := yandex_calls st @ [?c],
                 log := log st @ [LS_UPLOAD_FAILED YandexDisk file_name 2]\<rparr>"
  let ?st2 = "?st1\<lparr>yandex_calls := yandex_calls ?st1 @ [?c],
                 log := log ?st1 @ [LS_UPLOAD_FAILED YandexDisk file_name 1]\<rparr>"
  let ?st3 = "?st2\<lparr>yandex_calls := yandex_calls ?st2 @ [?c],
                 log := log ?st2 @ [LS_UPLOAD_FAILED YandexDisk file_name 0]\<rparr>"
  have t0: "yandex_try e p file_name 0 st = (False, ?st1)"
    using assms(1,2) u0 by (simp add: yandex_try_upload yandex_upload_file_RaiseOther)
  have t1: "yandex_try e p file_name 1 ?st1 = (False, ?st2)"
    using assms(1,2) u1 by (simp add: yandex_try_upload yandex_upload_file_RaiseOther)
  have t2: "yandex_try e p file_name 2 ?st2 = (False, ?st3)"
    using assms(1,2) u2 by (simp add: yandex_try_upload yandex_upload_file_RaiseOther)
  have "yandex_loop e p file_name retries st = ?st3"
    unfolding retries_def by (simp only: yandex_loop.simps t0 t1 t2 prod.case bool.case if_False)
  then show ?thesis
    by (simp add: numeral_3_eq_3)
qed



text \<open>
  Claim C3. Take a photo and a drive that is enabled and does not hold the checksum, so
  that the loop attempts the upload, and let the next three calls of the drive's upload
  operation raise an exception that is not the out-of-space one. Then the loop calls the
  operation exactly three times, logs each failure with 2, 1 and 0 attempts left, and
  leaves everything else as it was: nothing is written to the inventory or to the
  manifest, and the drive stays enabled. Nothing is raised out of the loop: the other
  drive's loop runs on the state the first loop leaves, and the run goes on with the next
  photo.
\<close>

theorem transient_three_attempts:
  "(gdrive st \<and> \<not> truthy (dict_get (google_folder_files_list st) (ph_md5 p))
      \<and> (\<forall>k<3. google_upload e (length (google_calls st) + k) file_name (ph_md5 p) = RaiseOther)
    \<longrightarrow> google_loop e p file_name retries st =
          st\<lparr>google_calls := google_calls st @ replicate 3 (file_name, ph_md5 p, RaiseOther),
              log := log st @ [LS_UPLOAD_FAILED GoogleDrive file_name 2,
                               LS_UPLOAD_FAILED GoogleDrive file_name 1,
                               LS_UPLOAD_FAILED GoogleDrive file_name 0]\<rparr>)
   \<and> (yadisk st \<and> \<not> truthy (dict_get (yandex_folder_files_list st) (ph_md5 p))
      \<and> (\<forall>k<3. yandex_upload e (length (yandex_calls st) + k) file_name (ph_md5 p) = RaiseOther)
    \<longrightarrow> yandex_loop e p file_name retries st =
          st\<lparr>yandex_calls := yandex_calls st @ replicate 3 (file_name, ph_md5 p, RaiseOther),
              log := log st @ [LS_UPLOAD_FAILED YandexDisk file_name 2,
                               LS_UPLOAD_FAILED YandexDisk file_name 1,
                               LS_UPLOAD_FAILED YandexDisk file_name 0]\<rparr>)
   \<and> (name_loop st p 0 (first_name p) = Some file_name
    \<longrightarrow> process_photo e p st =
          Some (yandex_loop e p file_name retries (google_loop e p file_name retries st)))
   \<and> (process_photo e p st = Some st1 \<longrightarrow> run e (p # photos) st = run e photos st1)"
  using google_loop_transient [of st p e file_name] yandex_loop_transient [of st p e file_name]
    process_photo_eq [of st p file_name e]
  by simp

theorem transient_three_attempts_witness:
  "gdrive (start True True [] [])
   \<and> \<not> truthy (dict_get (google_folder_files_list (start True True [] [])) (ph_md5 (jpg_photo 10 2 ''c'')))
   \<and> google_calls (google_loop (drives (always RaiseOther) (always RaiseOther)) (jpg_photo 10 2 ''c'')
        ''10.jpg'' retries (start True True [] []))
      = [(''10.jpg'', ''c'', RaiseOther), (''10.jpg'', ''c'', RaiseOther), (''10.jpg'', ''c'', RaiseOther)]
   \<and> google_folder_files_list (google_loop (drives (always RaiseOther) (always RaiseOther))
        (jpg_photo 10 2 ''c'') ''10.jpg'' retries (start True True [] [])) = []
   \<and> files_list (google_loop (drives (always RaiseOther) (always RaiseOther))
        (jpg_photo 10 2 ''c'') ''10.jpg'' retries (start True True [] [])) = []"
proof -
  let ?e = "drives (always RaiseOther) (always RaiseOther)"
  let ?p = "jpg_photo 10 2 ''c''"
  let ?st = "start True True [] []"
  have a: "gdrive ?st" "\<not> truthy (dict_get (google_folder_files_list ?st) (ph_md5 ?p))"
    by code_simp+
  have b: "\<forall>k<3. google_upload ?e (length (google_calls ?st) + k) ''10.jpg'' (ph_md5 ?p) = RaiseOther"
    by (simp add: drives_def always_def)
  have m: "ph_md5 ?p = ''c''"
    by (simp add: jpg_photo_def)
  from transient_three_attempts [of ?st ?p ?e "''10.jpg''"] a b
  have "google_loop ?e ?p ''10.jpg'' retries ?st =
          ?st\<lparr>google_calls := google_calls ?st @ replicate 3 (''10.jpg'', ph_md5 ?p, RaiseOther),
              log := log ?st @ [LS_UPLOAD_FAILED GoogleDrive ''10.jpg'' 2,
                               LS_UPLOAD_FAILED GoogleDrive ''10.jpg'' 1,
                               LS_UPLOAD_FAILED GoogleDrive ''10.jpg'' 0]\<rparr>"
    by blast
  then have "google_calls (google_loop ?e ?p ''10.jpg'' retries ?st)
      = [(''10.jpg'', ''c'', RaiseOther), (''10.jpg'', ''c'', RaiseOther), (''10.jpg'', ''c'', RaiseOther)]"
    and "google_folder_files_list (google_loop ?e ?p ''10.jpg'' retries ?st) = []"
    and "files_list (google_loop ?e ?p ''10.jpg'' retries ?st) = []"
    by (simp_all add: m start_def numeral_3_eq_3)
  with a show ?thesis
    by (intro conjI)
qed

text \<open>
  Claim C1, as the program has it. When a drive is enabled and its inventory maps the
  checksum of the photo to a name that is not empty, the drive's loop ends in its first
  round with the log line \<open>LS_FILE_EXIST\<close> and nothing else changes: no upload call is
  made, and the manifest and the inventories are what they were. The test is the truth
  value of \<open>d.get(md5)\<close>, so a checksum that is mapped to the empty name counts as absent.
  In a run, once a call for a checksum has returned a truthy value on a drive, no later
  call on that drive carries that checksum.
\<close>

theorem skip_when_present:
  "(gdrive st \<and> dict_get (google_folder_files_list st) (ph_md5 p) = Some n \<and> n \<noteq> []
    \<longrightarrow> google_loop e p file_name retries st =
          st\<lparr>log := log st @ [LS_FILE_EXIST GoogleDrive file_name n]\<rparr>)
   \<and> (yadisk st \<and> dict_get (yandex_folder_files_list st) (ph_md5 p) = Some n \<and> n \<noteq> []
    \<longrightarrow> yandex_loop e p file_name retries st =
          st\<lparr>log := log st @ [LS_FILE_EXIST YandexDisk file_name n]\<rparr>)
   \<and> (run e photos (start g y ginv yinv) = Some st'
    \<longrightarrow> (\<forall>i j. i < j \<and> j < length (google_calls st')
                \<and> call_outcome (google_calls st' ! i) = UploadOk
              \<longrightarrow> call_md5 (google_calls st' ! j) \<noteq> call_md5 (google_calls st' ! i))
        \<and> (\<forall>i j. i < j \<and> j < length (yandex_calls st')
                \<and> call_outcome (yandex_calls st' ! i) = UploadOk
              \<longrightarrow> call_md5 (yandex_calls st' ! j) \<noteq> call_md5 (yandex_calls st' ! i)))"
proof (intro conjI impI)
  assume r: "run e photos (start g y ginv yinv) = Some st'"
  from run_ok [OF r start_ok]
  have "no_reupload (google_calls st')" "no_reupload (yandex_calls st')"
    by (simp_all add: drive_ok_def google_view_def yandex_view_def)
  then show "\<forall>i j. i < j \<and> j < length (google_calls st')
                \<and> call_outcome (google_calls st' ! i) = UploadOk
              \<longrightarrow> call_md5 (google_calls st' ! j) \<noteq> call_md5 (google_calls st' ! i)"
    and "\<forall>i j. i < j \<and> j < length (yandex_calls st')
                \<and> call_outcome (yandex_calls st' ! i) = UploadOk
              \<longrightarrow> call_md5 (yandex_calls st' ! j) \<noteq> call_md5 (yandex_calls st' ! i)"
    by (simp_all add: no_reupload_def)
qed (simp_all add: google_loop_exists yandex_loop_exists)

theorem skip_when_present_witness:
  "gdrive (start True True [(''c'', ''3.jpg'')] [])
   \<and> dict_get (google_folder_files_list (start True True [(''c'', ''3.jpg'')] []))
        (ph_md5 (jpg_photo 3 1 ''c'')) = Some ''3.jpg''
   \<and> google_calls (google_loop (drives (always UploadOk) (always UploadOk)) (jpg_photo 3 1 ''c'')
        ''3.jpg'' retries (start True True [(''c'', ''3.jpg'')] [])) = []
   \<and> files_list (google_loop (drives (always UploadOk) (always UploadOk)) (jpg_photo 3 1 ''c'')
        ''3.jpg'' retries (start True True [(''c'', ''3.jpg'')] [])) = []
   \<and> log (google_loop (drives (always UploadOk) (always UploadOk)) (jpg_photo 3 1 ''c'')
        ''3.jpg'' retries (start True True [(''c'', ''3.jpg'')] []))
      = [LS_FILE_EXIST GoogleDrive ''3.jpg'' ''3.jpg'']
   \<and> (\<exists>st'. run (drives (always UploadOk) (always UploadOk))
                [jpg_photo 10 2 ''c1'', jpg_photo 10 3 ''c1''] (start True False [] []) = Some st'
          \<and> google_calls st' = [(''10.jpg'', ''c1'', UploadOk)])"
proof -
  let ?e = "drives (always UploadOk) (always UploadOk)"
  let ?p = "jpg_photo 3 1 ''c''"
  let ?st = "start True True [(''c'', ''3.jpg'')] []"
  have a: "gdrive ?st" "dict_get (google_folder_files_list ?st) (ph_md5 ?p) = Some ''3.jpg''"
    by code_simp+
  from skip_when_present [of ?st ?p "''3.jpg''" ?e "''3.jpg''"] a
  have "google_loop ?e ?p ''3.jpg'' retries ?st =
          ?st\<lparr>log := log ?st @ [LS_FILE_EXIST GoogleDrive ''3.jpg'' ''3.jpg'']\<rparr>"
    by simp
  then have b: "google_calls (google_loop ?e ?p ''3.jpg'' retries ?st) = []"
    "files_list (google_loop ?e ?p ''3.jpg'' retries ?st) = []"
    "log (google_loop ?e ?p ''3.jpg'' retries ?st) = [LS_FILE_EXIST GoogleDrive ''3.jpg'' ''3.jpg'']"
    by (simp_all add: start_def)
  let ?p1 = "jpg_photo 10 2 ''c1''"
  let ?p2 = "jpg_photo 10 3 ''c1''"
  let ?st0 = "start True False [] []"
  let ?st1 = "yandex_loop ?e ?p1 ''10.jpg'' retries (google_loop ?e ?p1 ''10.jpg'' retries ?st0)"
  let ?st2 = "yandex_loop ?e ?p2 ''10.jpg'' retries (google_loop ?e ?p2 ''10.jpg'' retries ?st1)"
  have f1: "first_name ?p1 = ''10.jpg''" and f2: "first_name ?p2 = ''10.jpg''"
    by code_simp+
  have "\<not> google_renames ?st0 ?p1 (first_name ?p1)" "\<not> yandex_renames ?st0 ?p1 (first_name ?p1)"
    by code_simp+
  then have "name_loop ?st0 ?p1 0 (first_name ?p1) = Some ''10.jpg''"
    unfolding f1 [symmetric] by (rule name_loop_stops)
  then have p1: "process_photo ?e ?p1 ?st0 = Some ?st1"
    by (rule process_photo_eq)
  have "\<not> google_renames ?st1 ?p2 (first_name ?p2)" "\<not> yandex_renames ?st1 ?p2 (first_name ?p2)"
    by code_simp+
  then have "name_loop ?st1 ?p2 0 (first_name ?p2) = Some ''10.jpg''"
    unfolding f2 [symmetric] by (rule name_loop_stops)
  then have p2: "process_photo ?e ?p2 ?st1 = Some ?st2"
    by (rule process_photo_eq)
  have run: "run ?e [?p1, ?p2] ?st0 = Some ?st2"
    by (simp only: run.simps p1 p2 option.case)
  have calls: "google_calls ?st2 = [(''10.jpg'', ''c1'', UploadOk)]"
    by code_simp
  from skip_when_present [of ?st0 ?p "''3.jpg''" ?e "''3.jpg''" "[?p1, ?p2]" True False "[]" "[]" ?st2] run
  have "\<forall>i j. i < j \<and> j < length (google_calls ?st2)
                \<and> call_outcome (google_calls ?st2 ! i) = UploadOk
              \<longrightarrow> call_md5 (google_calls ?st2 ! j) \<noteq> call_md5 (google_calls ?st2 ! i)"
    by blast
  then have c: "\<exists>st'. run ?e [?p1, ?p2] ?st0 = Some st' \<and> google_calls st' = [(''10.jpg'', ''c1'', UploadOk)]"
    by (intro exI [of _ ?st2] conjI run calls)
  from a b c show ?thesis
    by (intro conjI)
qed

text \<open>
  The claim as the specification states it (present in the inventory, whatever the name)
  fails when the listing of the drive gave an empty name for the checksum: the photo is
  uploaded and entered in the manifest.
\<close>

theorem skip_empty_name_counterexample:
  "dict_get (google_folder_files_list (start True False [(''c'', '''')] [])) (ph_md5 (jpg_photo 3 1 ''c''))
     = Some ''''
   \<and> name_loop (start True False [(''c'', '''')] []) (jpg_photo 3 1 ''c'') 0
        (first_name (jpg_photo 3 1 ''c'')) = Some ''3.jpg''
   \<and> google_calls (google_loop (drives (always UploadOk) (always UploadOk)) (jpg_photo 3 1 ''c'')
        ''3.jpg'' retries (start True False [(''c'', '''')] []))
      = [(''3.jpg'', ''c'', UploadOk)]
   \<and> map ent_file_name (files_list (google_loop (drives (always UploadOk) (always UploadOk))
        (jpg_photo 3 1 ''c'') ''3.jpg'' retries (start True False [(''c'', '''')] [])))
      = [''3.jpg'']"
proof -
  let ?p = "jpg_photo 3 1 ''c''"
  let ?st = "start True False [(''c'', '''')] []"
  have f: "first_name ?p = ''3.jpg''"
    by code_simp
  have "\<not> google_renames ?st ?p (first_name ?p)" "\<not> yandex_renames ?st ?p (first_name ?p)"
    by code_simp+
  then have "name_loop ?st ?p 0 (first_name ?p) = Some ''3.jpg''"
    unfolding f [symmetric] by (rule name_loop_stops)
  moreover have "dict_get (google_folder_files_list ?st) (ph_md5 ?p) = Some ''''"
    by code_simp
  moreover have "google_calls (google_loop (drives (always UploadOk) (always UploadOk)) ?p
        ''3.jpg'' retries ?st) = [(''3.jpg'', ''c'', UploadOk)]"
    by code_simp
  moreover have "map ent_file_name (files_list (google_loop (drives (always UploadOk) (always UploadOk))
        ?p ''3.jpg'' retries ?st)) = [''3.jpg'']"
    by code_simp
  ultimately show ?thesis
    by (intro conjI)
qed



subsection \<open>One drive, and the three photos of the scenario\<close>










end
